theory Spec2Isabelle
  imports Complex_Main "HOL-Library.Sublist"
begin

section \<open>The retry helper of \<^verbatim>\<open>src/ai/src/utils/retry-helper.ts\<close>\<close>

text \<open>
  The file exports one function, \<^verbatim>\<open>retryWithBackoff(fn, options)\<close>. It calls the
  asynchronous operation \<^verbatim>\<open>fn\<close> in a \<^verbatim>\<open>for\<close> loop, classifies a rejection by
  substrings of the error's message, waits between attempts and gives up after
  \<^verbatim>\<open>maxRetries\<close> retries.

  Conventions of the embedding.
  \<^item> A JavaScript \<^verbatim>\<open>number\<close> that counts (\<^verbatim>\<open>maxRetries\<close>, \<^verbatim>\<open>attempt\<close>) is an
    integer, as the specification's data model has it; the code does not check its
    sign, so negative values are kept.
  \<^item> A number that measures time or scales it (\<^verbatim>\<open>delay\<close>, \<^verbatim>\<open>maxDelay\<close>,
    \<^verbatim>\<open>backoffMultiplier\<close>, the parsed hint) is an exact rational: the rounding of
    IEEE doubles, \<^verbatim>\<open>NaN\<close> and the infinities are outside the model.
  \<^item> A string is a \<open>string\<close>. The patterns searched for are ASCII, so it makes no
    difference whether a character of the list stands for a UTF-16 code unit or a byte.
  \<^item> A caught value is an object whose \<^verbatim>\<open>message\<close> is a string or \<^verbatim>\<open>undefined\<close>
    (\<open>None\<close>).
  \<^item> The operation has side effects, so two invocations may settle differently:
    \<open>fn i\<close> is how the promise of invocation number \<open>i\<close> (from 0) settles. The loop
    invokes the operation once per iteration, so invocation \<open>i\<close> is attempt \<open>i\<close>. A
    promise that never settles is outside the model.
  \<^item> What the run does to the outside is recorded as a list of events in the order they
    happen: an invocation of the operation, or a wait (the second argument of
    \<^verbatim>\<open>setTimeout\<close>). The \<^verbatim>\<open>console.log\<close> line takes no part in the control flow and
    is left out.
\<close>

subsection \<open>Values\<close>

datatype js_error = JsError (message: "string option")

datatype 'a settled = Resolved 'a | Rejected js_error

datatype event = Invoked nat | Waited rat

text \<open>
  How a run ends, one constructor per exit of the function: the \<^verbatim>\<open>return\<close> of line 29,
  \<^verbatim>\<open>throw error\<close> of line 42 (the caught object itself), \<^verbatim>\<open>throw new Error(...)\<close> of
  line 47 (a fresh object) and the \<^verbatim>\<open>throw\<close> of line 77 after the loop.
\<close>

datatype 'a completion =
    Returned 'a
  | ThrewCaught js_error
  | ThrewMaxRetries js_error
  | ThrewAfterLoop js_error

record 'a run =
  completion :: "'a completion"
  events :: "event list"

record RetryOptions =
  maxRetries :: "int option"
  initialDelay :: "rat option"
  maxDelay :: "rat option"
  backoffMultiplier :: "rat option"

text \<open>The four constants that lines 17 to 22 bind by destructuring.\<close>

record retry_config =
  max_retries :: int
  initial_delay :: rat
  max_delay :: rat
  backoff_multiplier :: rat

text \<open>The variables of the loop: \<^verbatim>\<open>lastError\<close>, \<^verbatim>\<open>delay\<close>, and the events so far.\<close>

record loop_state =
  lastError :: "js_error option"
  delay :: rat
  history :: "event list"

subsection \<open>Strings\<close>

text \<open>\<^verbatim>\<open>String.prototype.includes\<close>: some suffix of the string starts with the pattern.\<close>

fun str_includes :: "string \<Rightarrow> string \<Rightarrow> bool" where
  "str_includes [] p = (p = [])"
| "str_includes (c # cs) p = (prefix p (c # cs) \<or> str_includes cs p)"

text \<open>\<^verbatim>\<open>error.message?.includes(p)\<close>: \<^verbatim>\<open>undefined\<close>, which is falsy, when there is no message.\<close>

definition message_includes :: "js_error \<Rightarrow> string \<Rightarrow> bool" where
  "message_includes error p = (case message error of None \<Rightarrow> False | Some m \<Rightarrow> str_includes m p)"

definition isRateLimitError :: "js_error \<Rightarrow> bool" where
  "isRateLimitError error =
     (message_includes error ''429'' \<or> message_includes error ''quota'' \<or>
      message_includes error ''rate limit'')"

definition isServerError :: "js_error \<Rightarrow> bool" where
  "isServerError error = (message_includes error ''500'' \<or> message_includes error ''503'')"

text \<open>The test of line 40, negated: the error is one the loop retries.\<close>

definition retryable :: "js_error \<Rightarrow> bool" where
  "retryable error = (\<not> (\<not> isRateLimitError error \<and> \<not> isServerError error))"

subsection \<open>The regular expression of line 53\<close>

text \<open>
  \<^verbatim>\<open>Canonicalize\<close> of a regular expression with the flag \<^verbatim>\<open>i\<close> and without \<^verbatim>\<open>u\<close>: the
  upper-case form of the character, and a character outside ASCII never becomes an
  ASCII one. So an ASCII letter of the pattern matches its two cases and nothing else.
\<close>

definition canonicalize :: "char \<Rightarrow> char" where
  "canonicalize c =
     (case map_of (zip ''abcdefghijklmnopqrstuvwxyz'' ''ABCDEFGHIJKLMNOPQRSTUVWXYZ'') c of
        None \<Rightarrow> c | Some u \<Rightarrow> u)"

fun ci_prefix :: "string \<Rightarrow> string \<Rightarrow> bool" where
  "ci_prefix [] s = True"
| "ci_prefix (p # ps) [] = False"
| "ci_prefix (p # ps) (c # cs) = (canonicalize c = canonicalize p \<and> ci_prefix ps cs)"

text \<open>\<^verbatim>\<open>\d\<close> without the flag \<^verbatim>\<open>u\<close> is \<^verbatim>\<open>[0-9]\<close>.\<close>

definition is_digit :: "char \<Rightarrow> bool" where
  "is_digit c = (c \<in> set ''0123456789'')"

text \<open>
  \<^verbatim>\<open>(\d+(?:\.\d+)?)\<close> at the start of a string: the digits, as many as there are, then a
  dot with the digits after it when at least one digit follows the dot. Nothing comes after
  the group in the pattern, so the greedy choice is the match.
\<close>

definition number_prefix :: "string \<Rightarrow> string option" where
  "number_prefix s =
     (let ds = takeWhile is_digit s; rest = dropWhile is_digit s
      in if ds = [] then None
         else Some (ds @
           (case rest of
              [] \<Rightarrow> []
            | c # fs \<Rightarrow>
                if c = CHR ''.'' \<and> takeWhile is_digit fs \<noteq> []
                then c # takeWhile is_digit fs else [])))"

text \<open>The whole pattern at the start of a string; the result is the group.\<close>

definition match_here :: "string \<Rightarrow> string option" where
  "match_here s =
     (if ci_prefix ''retry in '' s then number_prefix (drop (length ''retry in '') s)
      else None)"

text \<open>
  \<^verbatim>\<open>message.match(/retry in (\d+(?:\.\d+)?)/i)\<close>: the leftmost position where the
  pattern matches; \<open>None\<close> is \<^verbatim>\<open>null\<close>, \<open>Some g\<close> is \<^verbatim>\<open>retryAfterMatch[1]\<close>.
\<close>

fun regex_match :: "string \<Rightarrow> string option" where
  "regex_match [] = match_here []"
| "regex_match (c # cs) =
     (case match_here (c # cs) of Some g \<Rightarrow> Some g | None \<Rightarrow> regex_match cs)"

definition retryAfterMatch :: "js_error \<Rightarrow> string option" where
  "retryAfterMatch error = (case message error of None \<Rightarrow> None | Some m \<Rightarrow> regex_match m)"

subsection \<open>Numbers and their texts\<close>

definition digit_value :: "char \<Rightarrow> nat" where
  "digit_value c = of_char c - of_char CHR ''0''"

definition digits_value :: "string \<Rightarrow> nat" where
  "digits_value ds = foldl (\<lambda>n c. 10 * n + digit_value c) 0 ds"

text \<open>
  \<^verbatim>\<open>parseFloat\<close> on the text of the group (digits, or digits, a dot and digits): the
  decimal number it writes, exactly.
\<close>

definition parseFloat :: "string \<Rightarrow> rat" where
  "parseFloat s =
     (let ds = takeWhile is_digit s; rest = dropWhile is_digit s
      in case rest of
           [] \<Rightarrow> of_nat (digits_value ds)
         | c # fs \<Rightarrow>
             if c = CHR ''.''
             then of_nat (digits_value ds) +
                  of_nat (digits_value (takeWhile is_digit fs)) /
                    10 ^ length (takeWhile is_digit fs)
             else of_nat (digits_value ds))"

text \<open>The text of an integer in a template literal: its decimal digits, with a sign.\<close>

fun show_nat :: "nat \<Rightarrow> string" where
  "show_nat n =
     (if n < 10 then [''0123456789'' ! n]
      else show_nat (n div 10) @ [''0123456789'' ! (n mod 10)])"

definition show_int :: "int \<Rightarrow> string" where
  "show_int i = (if i < 0 then CHR ''-'' # show_nat (nat (- i)) else show_nat (nat i))"

text \<open>\<^verbatim>\<open>${error.message}\<close>: the message, or the text \<^verbatim>\<open>undefined\<close>.\<close>

definition message_text :: "js_error \<Rightarrow> string" where
  "message_text error = (case message error of None \<Rightarrow> ''undefined'' | Some m \<Rightarrow> m)"

subsection \<open>The loop\<close>

text \<open>Lines 53 to 62: the wait after a failure, from the current delay and the error.\<close>

definition waitTime :: "retry_config \<Rightarrow> rat \<Rightarrow> js_error \<Rightarrow> rat" where
  "waitTime c d error =
     min (case retryAfterMatch error of
            None \<Rightarrow> d
          | Some g \<Rightarrow> of_int \<lceil>parseFloat g * 1000\<rceil>)
         (max_delay c)"

text \<open>Line 73: the delay of the next attempt.\<close>

definition next_delay :: "retry_config \<Rightarrow> rat \<Rightarrow> rat" where
  "next_delay c d = min (d * backoff_multiplier c) (max_delay c)"

text \<open>Line 77, reached when the loop ends without a \<^verbatim>\<open>return\<close> or a \<^verbatim>\<open>throw\<close>.\<close>

definition after_loop :: "loop_state \<Rightarrow> 'a run" where
  "after_loop s =
     \<lparr>completion =
        ThrewAfterLoop (case lastError s of
                          Some e \<Rightarrow> e
                        | None \<Rightarrow> JsError (Some ''Retry failed with unknown error'')),
      events = history s\<rparr>"

text \<open>Lines 27 to 75, from the iteration with index \<open>attempt\<close> on.\<close>

function attempt_loop ::
  "(nat \<Rightarrow> 'a settled) \<Rightarrow> retry_config \<Rightarrow> nat \<Rightarrow> loop_state \<Rightarrow> 'a run" where
  "attempt_loop fn c attempt s =
     (if int attempt \<le> max_retries c then
        (case fn attempt of
           Resolved v \<Rightarrow>
             \<lparr>completion = Returned v, events = history s @ [Invoked attempt]\<rparr>
         | Rejected error \<Rightarrow>
             if \<not> isRateLimitError error \<and> \<not> isServerError error then
               \<lparr>completion = ThrewCaught error, events = history s @ [Invoked attempt]\<rparr>
             else if int attempt = max_retries c then
               \<lparr>completion =
                  ThrewMaxRetries
                    (JsError (Some (''Max retries ('' @ show_int (max_retries c) @
                                    '') reached. Last error: '' @ message_text error))),
                events = history s @ [Invoked attempt]\<rparr>
             else
               attempt_loop fn c (attempt + 1)
                 \<lparr>lastError = Some error,
                  delay = next_delay c (delay s),
                  history = history s @ [Invoked attempt, Waited (waitTime c (delay s) error)]\<rparr>)
      else after_loop s)"
  by pat_completeness auto
termination
  by (relation "measure (\<lambda>(fn, c, attempt, s). nat (max_retries c + 1 - int attempt))") auto

text \<open>Lines 15 to 25: the default of the parameter, the defaults of the fields, the
  initial values of the variables.\<close>

definition resolve_options :: "RetryOptions option \<Rightarrow> retry_config" where
  "resolve_options arg =
     (let options =
            (case arg of
               None \<Rightarrow> \<lparr>maxRetries = None, initialDelay = None, maxDelay = None,
                         backoffMultiplier = None\<rparr>
             | Some given \<Rightarrow> given)
      in \<lparr>max_retries = (case maxRetries options of None \<Rightarrow> 5 | Some n \<Rightarrow> n),
          initial_delay = (case initialDelay options of None \<Rightarrow> 1000 | Some d \<Rightarrow> d),
          max_delay = (case maxDelay options of None \<Rightarrow> 60000 | Some d \<Rightarrow> d),
          backoff_multiplier = (case backoffMultiplier options of None \<Rightarrow> 2 | Some b \<Rightarrow> b)\<rparr>)"

definition retry_loop :: "(nat \<Rightarrow> 'a settled) \<Rightarrow> retry_config \<Rightarrow> 'a run" where
  "retry_loop fn c =
     attempt_loop fn c 0 \<lparr>lastError = None, delay = initial_delay c, history = []\<rparr>"

definition retryWithBackoff :: "(nat \<Rightarrow> 'a settled) \<Rightarrow> RetryOptions option \<Rightarrow> 'a run" where
  "retryWithBackoff fn arg = retry_loop fn (resolve_options arg)"

subsection \<open>What a run did\<close>

definition count_invocations :: "event list \<Rightarrow> nat" where
  "count_invocations evs =
     length (filter (\<lambda>e. case e of Invoked i \<Rightarrow> True | Waited t \<Rightarrow> False) evs)"

definition wait_times :: "event list \<Rightarrow> rat list" where
  "wait_times evs = concat (map (\<lambda>e. case e of Invoked i \<Rightarrow> [] | Waited t \<Rightarrow> [t]) evs)"

definition invocations :: "'a run \<Rightarrow> nat" where
  "invocations r = count_invocations (events r)"

definition waits :: "'a run \<Rightarrow> rat list" where
  "waits r = wait_times (events r)"

text \<open>The settlement is a failure that the test of line 40 lets through to a retry.\<close>

definition retrying :: "'a settled \<Rightarrow> bool" where
  "retrying x = (case x of Resolved v \<Rightarrow> False | Rejected error \<Rightarrow> retryable error)"

text \<open>
  The events of consecutive iterations that all end in a wait: the iterations start at
  index \<open>a\<close> with delay \<open>d\<close>, and \<open>es\<close> are the errors they catch.
\<close>

fun trail :: "retry_config \<Rightarrow> rat \<Rightarrow> nat \<Rightarrow> js_error list \<Rightarrow> event list" where
  "trail c d a [] = []"
| "trail c d a (e # es) =
     Invoked a # Waited (waitTime c d e) # trail c (next_delay c d) (Suc a) es"

text \<open>The errors among the first \<open>k\<close> invocations, in order.\<close>

primrec failures :: "(nat \<Rightarrow> 'a settled) \<Rightarrow> nat \<Rightarrow> js_error list" where
  "failures fn 0 = []"
| "failures fn (Suc k) =
     failures fn k @ (case fn k of Resolved v \<Rightarrow> [] | Rejected error \<Rightarrow> [error])"

subsection \<open>The statements of the specification, in its words\<close>

text \<open>
  The classification as the specification words it: the numeric codes are searched for
  as they are, the two phrases without regard to case.
\<close>

definition to_lower :: "char \<Rightarrow> char" where
  "to_lower c =
     (case map_of (zip ''ABCDEFGHIJKLMNOPQRSTUVWXYZ'' ''abcdefghijklmnopqrstuvwxyz'') c of
        None \<Rightarrow> c | Some l \<Rightarrow> l)"

definition spec_retryable :: "js_error \<Rightarrow> bool" where
  "spec_retryable error =
     (case message error of
        None \<Rightarrow> False
      | Some m \<Rightarrow>
          sublist ''429'' m \<or> sublist ''500'' m \<or> sublist ''503'' m \<or>
          sublist ''quota'' (map to_lower m) \<or> sublist ''rate limit'' (map to_lower m))"

text \<open>
  The delay state as the specification words it: it starts at \<^verbatim>\<open>initialDelay\<close> and each
  retryable failure advances it to \<^verbatim>\<open>min(delay * backoffMultiplier, maxDelay)\<close>.
\<close>

primrec delay_at :: "retry_config \<Rightarrow> nat \<Rightarrow> rat" where
  "delay_at c 0 = initial_delay c"
| "delay_at c (Suc k) = min (delay_at c k * backoff_multiplier c) (max_delay c)"

text \<open>
  A message that contains the pattern \<^verbatim>\<open>retry in <number>\<close>, cut at the match the
  regular expression finds: \<open>pre\<close> is what precedes the match, \<open>kw\<close> the keyword in
  any mix of cases, \<open>ip\<close> the digits of the number, \<open>fs\<close> the digits of its fraction
  (empty when the number has none) and \<open>post\<close> what follows the number. The number
  is taken as long as it goes: \<open>post\<close> does not start with a digit, nor with a dot and a
  digit when the number has no fraction. The match is the leftmost: none starts inside
  \<open>pre\<close>.
\<close>

definition starts_digit :: "string \<Rightarrow> bool" where
  "starts_digit s = (case s of [] \<Rightarrow> False | d # rest \<Rightarrow> is_digit d)"


definition fraction_text :: "string \<Rightarrow> string" where
  "fraction_text fs = (if fs = [] then [] else CHR ''.'' # fs)"



subsection \<open>Sample operations and options\<close>

definition no_options :: RetryOptions where
  "no_options =
     \<lparr>maxRetries = None, initialDelay = None, maxDelay = None, backoffMultiplier = None\<rparr>"

definition denied_then_ok :: "nat \<Rightarrow> nat settled" where
  "denied_then_ok i =
     (if i = 0 then Rejected (JsError (Some ''permission denied'')) else Resolved 42)"

definition always_503 :: "nat \<Rightarrow> nat settled" where
  "always_503 i = Rejected (JsError (Some ''503 Service Unavailable''))"


definition throttled_then_denied :: "nat \<Rightarrow> nat settled" where
  "throttled_then_denied i =
     (if i = 0 then Rejected (JsError (Some ''429 Too Many Requests''))
      else Rejected (JsError (Some ''permission denied'')))"

definition throttled_then_hinted :: "nat \<Rightarrow> nat settled" where
  "throttled_then_hinted i =
     (if i = 0 then Rejected (JsError (Some ''429 Too Many Requests''))
      else Rejected (JsError (Some ''invalid request, retry in 30 seconds'')))"

definition always_ok :: "nat \<Rightarrow> nat settled" where
  "always_ok i = Resolved 42"



definition three_retries :: RetryOptions where
  "three_retries =
     \<lparr>maxRetries = Some 3, initialDelay = None, maxDelay = None, backoffMultiplier = None\<rparr>"

section \<open>Properties\<close>

subsection \<open>Strings\<close>

lemma str_includes_sublist: "str_includes s p = sublist p s"
  by (induction s) (auto simp: sublist_Cons_right)

subsection \<open>One iteration of the loop\<close>

declare attempt_loop.simps [simp del]

lemma loop_done:
  "\<not> int a \<le> max_retries c \<Longrightarrow> attempt_loop fn c a s = after_loop s"
  by (subst attempt_loop.simps) simp

lemma loop_resolved:
  "int a \<le> max_retries c \<Longrightarrow> fn a = Resolved v \<Longrightarrow>
   attempt_loop fn c a s = \<lparr>completion = Returned v, events = history s @ [Invoked a]\<rparr>"
  by (subst attempt_loop.simps) simp

lemma loop_caught:
  "int a \<le> max_retries c \<Longrightarrow> fn a = Rejected e \<Longrightarrow> \<not> retryable e \<Longrightarrow>
   attempt_loop fn c a s = \<lparr>completion = ThrewCaught e, events = history s @ [Invoked a]\<rparr>"
  by (subst attempt_loop.simps) (simp add: retryable_def)

lemma loop_exhausted:
  "int a = max_retries c \<Longrightarrow> fn a = Rejected e \<Longrightarrow> retryable e \<Longrightarrow>
   attempt_loop fn c a s =
     \<lparr>completion =
        ThrewMaxRetries
          (JsError (Some (''Max retries ('' @ show_int (max_retries c) @
                          '') reached. Last error: '' @ message_text e))),
      events = history s @ [Invoked a]\<rparr>"
  by (subst attempt_loop.simps) (auto simp add: retryable_def)

lemma loop_retry:
  "int a < max_retries c \<Longrightarrow> fn a = Rejected e \<Longrightarrow> retryable e \<Longrightarrow>
   attempt_loop fn c a s =
     attempt_loop fn c (Suc a)
       \<lparr>lastError = Some e, delay = next_delay c (delay s),
        history = history s @ [Invoked a, Waited (waitTime c (delay s) e)]\<rparr>"
  by (subst attempt_loop.simps) (auto simp add: retryable_def)

lemma loop_retries:
  "(\<forall>i < length es. fn (a + i) = Rejected (es ! i)) \<Longrightarrow> (\<forall>e \<in> set es. retryable e) \<Longrightarrow>
   int (a + length es) \<le> max_retries c \<Longrightarrow>
   \<exists>le. attempt_loop fn c a s =
     attempt_loop fn c (a + length es)
       \<lparr>lastError = le, delay = (next_delay c ^^ length es) (delay s),
        history = history s @ trail c (delay s) a es\<rparr>"
proof (induction es arbitrary: a s)
  case Nil
  show ?case by (rule exI [of _ "lastError s"]) (cases s, simp)
next
  case (Cons e es)
  let ?s = "\<lparr>lastError = Some e, delay = next_delay c (delay s),
        history = history s @ [Invoked a, Waited (waitTime c (delay s) e)]\<rparr>"
  from Cons.prems(1) have here: "fn a = Rejected e" by fastforce
  from Cons.prems(1) have later: "\<forall>i < length es. fn (Suc a + i) = Rejected (es ! i)"
    by fastforce
  from Cons.prems(3) have lt: "int a < max_retries c" and le: "int (Suc a + length es) \<le> max_retries c"
    by simp_all
  from Cons.prems(2) have r: "retryable e" and rs: "\<forall>e \<in> set es. retryable e" by simp_all
  from Cons.IH [OF later rs le, of ?s] obtain le' where
    "attempt_loop fn c (Suc a) ?s =
       attempt_loop fn c (Suc a + length es)
        \<lparr>lastError = le', delay = (next_delay c ^^ length es) (delay ?s),
         history = history ?s @ trail c (delay ?s) (Suc a) es\<rparr>" by blast
  with loop_retry [where fn = fn and s = s, OF lt here r] show ?case
    by (auto simp: funpow_swap1)
qed

lemma count_invocations_simps [simp]:
  "count_invocations [] = 0"
  "count_invocations (Invoked i # evs) = Suc (count_invocations evs)"
  "count_invocations (Waited t # evs) = count_invocations evs"
  "count_invocations (xs @ ys) = count_invocations xs + count_invocations ys"
  by (simp_all add: count_invocations_def)

lemma wait_times_simps [simp]:
  "wait_times [] = []"
  "wait_times (Invoked i # evs) = wait_times evs"
  "wait_times (Waited t # evs) = t # wait_times evs"
  "wait_times (xs @ ys) = wait_times xs @ wait_times ys"
  by (simp_all add: wait_times_def)


subsection \<open>Induction over the iterations\<close>

lemma loop_induct [consumes 0, case_names finished resolved caught exhausted retry]:
  assumes "\<And>a s. \<not> int a \<le> max_retries c \<Longrightarrow> P a s"
    and "\<And>a s v. int a \<le> max_retries c \<Longrightarrow> fn a = Resolved v \<Longrightarrow> P a s"
    and "\<And>a s e. int a \<le> max_retries c \<Longrightarrow> fn a = Rejected e \<Longrightarrow> \<not> retryable e \<Longrightarrow> P a s"
    and "\<And>a s e. int a = max_retries c \<Longrightarrow> fn a = Rejected e \<Longrightarrow> retryable e \<Longrightarrow> P a s"
    and "\<And>a s e. int a < max_retries c \<Longrightarrow> fn a = Rejected e \<Longrightarrow> retryable e \<Longrightarrow>
           P (Suc a) \<lparr>lastError = Some e, delay = next_delay c (delay s),
                      history = history s @ [Invoked a, Waited (waitTime c (delay s) e)]\<rparr> \<Longrightarrow>
           P a s"
  shows "P a s"
  using assms
proof (induction fn c a s rule: attempt_loop.induct)
  case (1 fn c attempt s)
  show ?case
  proof (cases "int attempt \<le> max_retries c")
    case False
    then show ?thesis by (rule "1.prems"(1))
  next
    case le: True
    show ?thesis
    proof (cases "fn attempt")
      case (Resolved v)
      with le show ?thesis by (rule "1.prems"(2))
    next
      case (Rejected e)
      show ?thesis
      proof (cases "retryable e")
        case False
        with le Rejected show ?thesis by (rule "1.prems"(3))
      next
        case r: True
        show ?thesis
        proof (cases "int attempt = max_retries c")
          case True
          then show ?thesis using Rejected r by (rule "1.prems"(4))
        next
          case False
          with le have lt: "int attempt < max_retries c" by simp
          from r have cls: "\<not> (\<not> isRateLimitError e \<and> \<not> isServerError e)"
            by (simp add: retryable_def)
          have "P (attempt + 1)
                  \<lparr>lastError = Some e, delay = next_delay c (delay s),
                   history = history s @ [Invoked attempt, Waited (waitTime c (delay s) e)]\<rparr>"
            by (rule "1.IH" [OF le Rejected cls False]) (fact "1.prems")+
          then show ?thesis using "1.prems"(5) [OF lt Rejected r] by simp
        qed
      qed
    qed
  qed
qed

lemma loop_bound:
  "count_invocations (events (attempt_loop fn c a s)) \<le>
     count_invocations (history s) + nat (max_retries c + 1 - int a)"
proof (induction a s rule: loop_induct [where fn = fn and c = c])
  case (retry a s e)
  then show ?case by (simp add: loop_retry [where fn = fn])
qed (simp_all add: loop_done after_loop_def loop_resolved loop_caught loop_exhausted)

lemma loop_not_after:
  "int a \<le> max_retries c \<Longrightarrow> completion (attempt_loop fn c a s) \<noteq> ThrewAfterLoop x"
proof (induction a s rule: loop_induct [where fn = fn and c = c])
  case (retry a s e)
  then show ?case by (simp add: loop_retry [where fn = fn])
qed (simp_all add: loop_resolved loop_caught loop_exhausted)


lemma loop_invoked:
  "Invoked k \<in> set (events (attempt_loop fn c a s)) \<Longrightarrow> Invoked k \<notin> set (history s) \<Longrightarrow>
   a \<le> k \<and> int k \<le> max_retries c \<and> (\<forall>i. a \<le> i \<and> i < k \<longrightarrow> retrying (fn i))"
proof (induction a s rule: loop_induct [where fn = fn and c = c])
  case (retry a s e)
  show ?case
  proof (cases "k = a")
    case True
    with retry.hyps show ?thesis by auto
  next
    case False
    with retry have *: "Suc a \<le> k \<and> int k \<le> max_retries c \<and> (\<forall>i. Suc a \<le> i \<and> i < k \<longrightarrow> retrying (fn i))"
      by (simp add: loop_retry [where fn = fn])
    have "retrying (fn a)" using retry.hyps by (simp add: retrying_def)
    with * show ?thesis by (metis Suc_leD Suc_leI le_neq_implies_less)
  qed
qed (auto simp add: loop_done after_loop_def loop_resolved loop_caught loop_exhausted)


subsection \<open>Whole runs\<close>

lemma failures_retrying:
  "(\<forall>i<k. retrying (fn i)) \<Longrightarrow>
   length (failures fn k) = k \<and> (\<forall>i<k. fn i = Rejected (failures fn k ! i)) \<and>
   (\<forall>e \<in> set (failures fn k). retryable e)"
proof (induction k)
  case 0
  show ?case by simp
next
  case (Suc k)
  then have IH: "length (failures fn k) = k" "\<forall>i<k. fn i = Rejected (failures fn k ! i)"
    "\<forall>e \<in> set (failures fn k). retryable e" by simp_all
  from Suc.prems have "retrying (fn k)" by simp
  then obtain e where e: "fn k = Rejected e" "retryable e"
    by (auto simp: retrying_def split: settled.splits)
  with IH show ?case by (auto simp: nth_append less_Suc_eq)
qed

lemma funpow_next_delay: "(next_delay c ^^ k) (initial_delay c) = delay_at c k"
  by (induction k) (simp_all add: next_delay_def)

lemma count_invocations_trail [simp]: "count_invocations (trail c d a es) = length es"
  by (induction es arbitrary: d a) simp_all

lemma length_wait_times_trail [simp]: "length (wait_times (trail c d a es)) = length es"
  by (induction es arbitrary: d a) simp_all


lemma run_reaches:
  assumes "\<forall>i<k. retrying (fn i)" and "int k \<le> max_retries c"
  shows "\<exists>le. retry_loop fn c =
           attempt_loop fn c k
             \<lparr>lastError = le, delay = delay_at c k,
              history = trail c (initial_delay c) 0 (failures fn k)\<rparr>"
proof -
  from failures_retrying [OF assms(1)]
  have len: "length (failures fn k) = k"
    and nth: "\<forall>i<length (failures fn k). fn (0 + i) = Rejected (failures fn k ! i)"
    and ret: "\<forall>e \<in> set (failures fn k). retryable e" by simp_all
  from assms(2) len have le: "int (0 + length (failures fn k)) \<le> max_retries c" by simp
  from loop_retries [where fn = fn and a = 0, OF nth ret le,
      of "\<lparr>lastError = None, delay = initial_delay c, history = []\<rparr>"]
  show ?thesis by (simp add: retry_loop_def len funpow_next_delay)
qed

lemma run_returned:
  assumes "\<forall>i<k. retrying (fn i)" and "int k \<le> max_retries c" and "fn k = Resolved v"
  shows "retry_loop fn c =
           \<lparr>completion = Returned v,
            events = trail c (initial_delay c) 0 (failures fn k) @ [Invoked k]\<rparr>"
  using run_reaches [OF assms(1,2)] by (auto simp: loop_resolved [where fn = fn, OF assms(2,3)])

lemma run_caught:
  assumes "\<forall>i<k. retrying (fn i)" and "int k \<le> max_retries c"
    and "fn k = Rejected e" and "\<not> retryable e"
  shows "retry_loop fn c =
           \<lparr>completion = ThrewCaught e,
            events = trail c (initial_delay c) 0 (failures fn k) @ [Invoked k]\<rparr>"
  using run_reaches [OF assms(1,2)] by (auto simp: loop_caught [where fn = fn, OF assms(2,3,4)])

lemma run_exhausted:
  assumes "\<forall>i<k. retrying (fn i)" and "int k = max_retries c"
    and "fn k = Rejected e" and "retryable e"
  shows "retry_loop fn c =
           \<lparr>completion =
              ThrewMaxRetries
                (JsError (Some (''Max retries ('' @ show_int (max_retries c) @
                                '') reached. Last error: '' @ message_text e))),
            events = trail c (initial_delay c) 0 (failures fn k) @ [Invoked k]\<rparr>"
proof -
  from assms(2) have "int k \<le> max_retries c" by simp
  from run_reaches [OF assms(1) this] show ?thesis
    by (auto simp: loop_exhausted [where fn = fn, OF assms(2,3,4)])
qed


lemma run_invoked:
  assumes "Invoked k \<in> set (events (retry_loop fn c))"
  shows "(\<forall>i<k. retrying (fn i)) \<and> int k \<le> max_retries c"
  using loop_invoked [of k fn c 0 "\<lparr>lastError = None, delay = initial_delay c, history = []\<rparr>"] assms
  by (simp add: retry_loop_def)

lemma run_exits:
  assumes "0 \<le> max_retries c"
  shows "\<exists>k. (\<forall>i<k. retrying (fn i)) \<and> int k \<le> max_retries c \<and>
           (\<not> retrying (fn k) \<or> int k = max_retries c)"
proof (cases "\<forall>i. int i \<le> max_retries c \<longrightarrow> retrying (fn i)")
  case True
  with assms show ?thesis by (intro exI [of _ "nat (max_retries c)"]) simp
next
  case False
  then have ex: "\<exists>i. \<not> (int i \<le> max_retries c \<longrightarrow> retrying (fn i))" by simp
  define k where "k = (LEAST i. \<not> (int i \<le> max_retries c \<longrightarrow> retrying (fn i)))"
  from ex have k: "\<not> (int k \<le> max_retries c \<longrightarrow> retrying (fn k))"
    unfolding k_def by (rule LeastI_ex)
  have "\<forall>i<k. int i \<le> max_retries c \<longrightarrow> retrying (fn i)"
    unfolding k_def using not_less_Least by blast
  with k show ?thesis by (intro exI [of _ k]) auto
qed


subsection \<open>Classification\<close>

lemma retryable_iff:
  "retryable error =
     (\<exists>m. message error = Some m \<and>
        (sublist ''429'' m \<or> sublist ''quota'' m \<or> sublist ''rate limit'' m \<or>
         sublist ''500'' m \<or> sublist ''503'' m))"
  by (cases "message error")
     (auto simp: retryable_def isRateLimitError_def isServerError_def message_includes_def
        str_includes_sublist)

declare show_nat.simps [simp del]

lemma retryable_message: "retryable e \<Longrightarrow> \<exists>m. e = JsError (Some m)"
  by (cases e) (auto simp: retryable_iff)

lemma run_ends_with:
  assumes "events r = trail c d 0 es @ [Invoked k]" and "length es = k"
  shows "invocations r = k + 1 \<and> length (waits r) = k \<and> last (events r) = Invoked k"
  using assms by (simp add: invocations_def waits_def)

text \<open>
  C2, as the specification states it, fails: the code searches for \<^verbatim>\<open>quota\<close> and
  \<^verbatim>\<open>rate limit\<close> with \<^verbatim>\<open>includes\<close>, which distinguishes case. An error with the
  message \<^verbatim>\<open>Quota exceeded\<close> is retryable in the specification's words and is not
  retried by the code.
\<close>

theorem C2_counterexample:
  "spec_retryable (JsError (Some ''Quota exceeded'')) \<and>
   \<not> retryable (JsError (Some ''Quota exceeded''))"
  by (simp add: spec_retryable_def to_lower_def retryable_iff sublist_code)

text \<open>
  C2, amended: an error is classified as retryable if and only if its message contains one
  of the substrings \<^verbatim>\<open>429\<close>, \<^verbatim>\<open>quota\<close>, \<^verbatim>\<open>rate limit\<close>, \<^verbatim>\<open>500\<close>, \<^verbatim>\<open>503\<close>, each
  compared case-sensitively; an error whose message is undefined or empty is
  classified as non-retryable.
\<close>

theorem C2_classification:
  "retryable error =
     (\<exists>m. message error = Some m \<and>
        (sublist ''429'' m \<or> sublist ''quota'' m \<or> sublist ''rate limit'' m \<or>
         sublist ''500'' m \<or> sublist ''503'' m)) \<and>
   retryable (JsError None) = False \<and> retryable (JsError (Some [])) = False"
  by (simp add: retryable_iff [of error] retryable_iff [of "JsError None"]
        retryable_iff [of "JsError (Some [])"])

subsection \<open>The number of attempts\<close>




subsection \<open>The exits of the function\<close>

text \<open>
  C7: for every configuration with \<^verbatim>\<open>maxRetries >= 0\<close> and every operation, the
  \<^verbatim>\<open>throw\<close> of line 77 after the loop is never reached: the run ends inside the loop,
  with the value of a successful invocation (line 29), with the very error of an
  invocation whose error is not retryable (line 42), or with the fresh error of line 47
  built from \<^verbatim>\<open>maxRetries\<close> and the message of the error caught at attempt
  \<^verbatim>\<open>maxRetries\<close>.
\<close>

theorem C7_fallback_unreachable:
  assumes "0 \<le> max_retries (resolve_options arg)"
  shows "(\<forall>x. completion (retryWithBackoff fn arg) \<noteq> ThrewAfterLoop x) \<and>
    ((\<exists>k v. fn k = Resolved v \<and> completion (retryWithBackoff fn arg) = Returned v) \<or>
     (\<exists>k e. fn k = Rejected e \<and> \<not> retryable e \<and>
        completion (retryWithBackoff fn arg) = ThrewCaught e) \<or>
     (\<exists>k e. fn k = Rejected e \<and> retryable e \<and> int k = max_retries (resolve_options arg) \<and>
        completion (retryWithBackoff fn arg) =
          ThrewMaxRetries
            (JsError (Some (''Max retries ('' @ show_int (max_retries (resolve_options arg)) @
                            '') reached. Last error: '' @ message_text e)))))"
proof -
  let ?c = "resolve_options arg"
  from run_exits [OF assms, of fn] obtain k where
    pre: "\<forall>i<k. retrying (fn i)" and le: "int k \<le> max_retries ?c"
    and stop: "\<not> retrying (fn k) \<or> int k = max_retries ?c" by blast
  have run: "retryWithBackoff fn arg = retry_loop fn ?c" by (simp add: retryWithBackoff_def)
  show ?thesis
  proof (cases "fn k")
    case (Resolved v)
    from run_returned [OF pre le Resolved] Resolved show ?thesis
      unfolding run by auto
  next
    case (Rejected e)
    show ?thesis
    proof (cases "retryable e")
      case False
      from run_caught [OF pre le Rejected False] Rejected False show ?thesis
        unfolding run by auto
    next
      case True
      with stop Rejected have eq: "int k = max_retries ?c" by (simp add: retrying_def)
      from run_exhausted [OF pre eq Rejected True] Rejected True eq show ?thesis
        unfolding run by auto
    qed
  qed
qed

text \<open>C7 at an operation that always fails with a 503, with the defaults.\<close>

theorem C7_witness:
  "0 \<le> max_retries (resolve_options None) \<and>
   (\<forall>x. completion (retryWithBackoff always_503 None) \<noteq> ThrewAfterLoop x)"
proof -
  have h: "0 \<le> max_retries (resolve_options None)" by (simp add: resolve_options_def)
  from C7_fallback_unreachable [OF h, of always_503] h show ?thesis by blast
qed

subsection \<open>Exhausted retries\<close>

text \<open>
  C3: if every invocation of the operation fails with an error classified as retryable,
  then with \<^verbatim>\<open>maxRetries = N\<close> the operation is invoked exactly \<open>N + 1\<close> times and the
  run throws the fresh error of line 47, not the caught one: its message is
  \<^verbatim>\<open>Max retries (N) reached. Last error: \<close> followed by the message of the last caught
  error, so it contains the text of \<open>N\<close> and that message and differs from it. The run
  makes \<open>N\<close> waits, and its last event is the invocation of attempt \<open>N\<close>: no wait follows
  the final failure.
\<close>

theorem C3_exhaustion:
  assumes "\<forall>i\<le>N. retrying (fn i)" and "max_retries (resolve_options arg) = int N"
  shows "\<exists>m. fn N = Rejected (JsError (Some m)) \<and>
           completion (retryWithBackoff fn arg) =
             ThrewMaxRetries
               (JsError (Some (''Max retries ('' @ show_int (int N) @
                               '') reached. Last error: '' @ m))) \<and>
           sublist (show_int (int N))
             (''Max retries ('' @ show_int (int N) @ '') reached. Last error: '' @ m) \<and>
           sublist m (''Max retries ('' @ show_int (int N) @ '') reached. Last error: '' @ m) \<and>
           ''Max retries ('' @ show_int (int N) @ '') reached. Last error: '' @ m \<noteq> m \<and>
           invocations (retryWithBackoff fn arg) = N + 1 \<and>
           length (waits (retryWithBackoff fn arg)) = N \<and>
           last (events (retryWithBackoff fn arg)) = Invoked N"
proof -
  let ?c = "resolve_options arg"
  have run: "retryWithBackoff fn arg = retry_loop fn ?c" by (simp add: retryWithBackoff_def)
  from assms(1) have pre: "\<forall>i<N. retrying (fn i)" and "retrying (fn N)" by simp_all
  then obtain e where e: "fn N = Rejected e" "retryable e"
    by (auto simp: retrying_def split: settled.splits)
  from retryable_message [OF e(2)] obtain m where m: "e = JsError (Some m)" ..
  from assms(2) have eq: "int N = max_retries ?c" by simp
  from failures_retrying [OF pre] have len: "length (failures fn N) = N" by simp
  note r = run_exhausted [OF pre eq e]
  from r have ev: "events (retryWithBackoff fn arg) =
      trail ?c (initial_delay ?c) 0 (failures fn N) @ [Invoked N]" by (simp add: run)
  have s1: "sublist (show_int (int N))
             (''Max retries ('' @ show_int (int N) @ '') reached. Last error: '' @ m)"
    unfolding sublist_def by blast
  have s2: "sublist m (''Max retries ('' @ show_int (int N) @ '') reached. Last error: '' @ m)"
    by (rule suffix_imp_sublist) (simp add: suffix_def)
  have ne: "''Max retries ('' @ show_int (int N) @ '') reached. Last error: '' @ m \<noteq> m"
    by simp
  from r have "completion (retryWithBackoff fn arg) =
             ThrewMaxRetries
               (JsError (Some (''Max retries ('' @ show_int (int N) @
                               '') reached. Last error: '' @ m)))"
    by (simp add: run m message_text_def assms(2))
  with e(1) m s1 s2 ne run_ends_with [OF ev len] show ?thesis by blast
qed

text \<open>C3 at \<^verbatim>\<open>maxRetries = 3\<close> and an operation that always fails with a 503.\<close>

theorem C3_witness:
  "retrying (always_503 0) \<and> max_retries (resolve_options (Some three_retries)) = int 3 \<and>
   show_int (int 3) = ''3'' \<and>
   completion (retryWithBackoff always_503 (Some three_retries)) =
     ThrewMaxRetries
       (JsError (Some ''Max retries (3) reached. Last error: 503 Service Unavailable'')) \<and>
   invocations (retryWithBackoff always_503 (Some three_retries)) = 3 + 1 \<and>
   length (waits (retryWithBackoff always_503 (Some three_retries))) = 3 \<and>
   last (events (retryWithBackoff always_503 (Some three_retries))) = Invoked 3"
proof -
  have h0: "\<And>i. retrying (always_503 i)"
    by (simp add: always_503_def retrying_def retryable_iff sublist_code)
  then have h1: "\<forall>i\<le>3. retrying (always_503 i)" by simp
  have h2: "max_retries (resolve_options (Some three_retries)) = int 3"
    by (simp add: resolve_options_def three_retries_def)
  have sh: "show_int (int 3) = ''3''" by code_simp
  have a3: "always_503 3 = Rejected (JsError (Some ''503 Service Unavailable''))"
    by (simp add: always_503_def)
  from C3_exhaustion [OF h1 h2] h0 h2 sh a3 show ?thesis by auto
qed

subsection \<open>Errors that are not retried\<close>

text \<open>
  C4: if an invocation of the operation, the one of attempt \<open>k\<close>, fails with an error that
  is not classified as retryable, the run throws that very error at line 42, the
  operation has been invoked \<open>k + 1\<close> times and is not invoked again, and the last event
  of the run is that invocation: the only waits are the \<open>k\<close> waits of the earlier
  attempts, and none precedes the \<^verbatim>\<open>throw\<close>. When the first attempt fails so, the run
  consists of that one invocation.
\<close>

theorem C4_non_retryable:
  assumes "Invoked k \<in> set (events (retryWithBackoff fn arg))"
    and "fn k = Rejected e" and "\<not> retryable e"
  shows "completion (retryWithBackoff fn arg) = ThrewCaught e \<and>
         invocations (retryWithBackoff fn arg) = k + 1 \<and>
         last (events (retryWithBackoff fn arg)) = Invoked k \<and>
         length (waits (retryWithBackoff fn arg)) = k \<and>
         (0 \<le> max_retries (resolve_options arg) \<and> fn 0 = Rejected e0 \<and> \<not> retryable e0 \<longrightarrow>
            retryWithBackoff fn arg = \<lparr>completion = ThrewCaught e0, events = [Invoked 0]\<rparr>)"
proof -
  let ?c = "resolve_options arg"
  have run: "retryWithBackoff fn arg = retry_loop fn ?c" by (simp add: retryWithBackoff_def)
  from run_invoked [of k fn ?c] assms(1)
  have pre: "\<forall>i<k. retrying (fn i)" and le: "int k \<le> max_retries ?c" by (simp_all add: run)
  from failures_retrying [OF pre] have len: "length (failures fn k) = k" by simp
  note r = run_caught [OF pre le assms(2,3)]
  from r have ev: "events (retryWithBackoff fn arg) =
      trail ?c (initial_delay ?c) 0 (failures fn k) @ [Invoked k]" by (simp add: run)
  from r have "completion (retryWithBackoff fn arg) = ThrewCaught e" by (simp add: run)
  moreover have "retryWithBackoff fn arg = \<lparr>completion = ThrewCaught e0, events = [Invoked 0]\<rparr>"
    if "0 \<le> max_retries ?c" and f: "fn 0 = Rejected e0" and n: "\<not> retryable e0"
  proof -
    from that(1) have le0: "int 0 \<le> max_retries ?c" by simp
    from run_caught [where k = 0 and fn = fn, OF _ le0 f n] show ?thesis by (simp add: run)
  qed
  ultimately show ?thesis using run_ends_with [OF ev len] by blast
qed

text \<open>
  C4 at an operation that is throttled once and then denied, and at one that is denied
  at once.
\<close>

theorem C4_witness:
  "Invoked 1 \<in> set (events (retryWithBackoff throttled_then_denied None)) \<and>
   throttled_then_denied 1 = Rejected (JsError (Some ''permission denied'')) \<and>
   \<not> retryable (JsError (Some ''permission denied'')) \<and>
   completion (retryWithBackoff throttled_then_denied None) =
     ThrewCaught (JsError (Some ''permission denied'')) \<and>
   invocations (retryWithBackoff throttled_then_denied None) = 1 + 1 \<and>
   events (retryWithBackoff throttled_then_denied None) = [Invoked 0, Waited 1000, Invoked 1] \<and>
   0 \<le> max_retries (resolve_options None) \<and>
   denied_then_ok 0 = Rejected (JsError (Some ''permission denied'')) \<and>
   retryWithBackoff denied_then_ok None =
     \<lparr>completion = ThrewCaught (JsError (Some ''permission denied'')), events = [Invoked 0]\<rparr>"
proof -
  have ev: "events (retryWithBackoff throttled_then_denied None) =
              [Invoked 0, Waited 1000, Invoked 1]" by code_simp
  then have h1: "Invoked 1 \<in> set (events (retryWithBackoff throttled_then_denied None))"
    by simp
  have h2: "throttled_then_denied 1 = Rejected (JsError (Some ''permission denied''))"
    by (simp add: throttled_then_denied_def)
  have h3: "\<not> retryable (JsError (Some ''permission denied''))"
    by (simp add: retryable_iff sublist_code)
  have h4: "0 \<le> max_retries (resolve_options None)" by (simp add: resolve_options_def)
  have h5: "denied_then_ok 0 = Rejected (JsError (Some ''permission denied''))"
    by (simp add: denied_then_ok_def)
  have "events (retryWithBackoff denied_then_ok None) = [Invoked 0]" by code_simp
  then have h6: "Invoked 0 \<in> set (events (retryWithBackoff denied_then_ok None))" by simp
  from C4_non_retryable [OF h1 h2 h3, of "JsError (Some ''permission denied'')"]
    C4_non_retryable [OF h6 h5 h3, of "JsError (Some ''permission denied'')"]
    ev h1 h2 h3 h4 h5
  show ?thesis by simp
qed

text \<open>
  C10: the hint of a message is honoured only for an error that is retried. If the
  invocation of attempt \<open>k\<close> fails with an error whose message the regular expression of
  line 53 matches, and the message contains none of \<^verbatim>\<open>429\<close>, \<^verbatim>\<open>quota\<close>,
  \<^verbatim>\<open>rate limit\<close>, \<^verbatim>\<open>500\<close>, \<^verbatim>\<open>503\<close>, the run throws that error at line 42: the
  invocation is the last event of the run, so no wait follows it and the operation is
  not invoked again; the hint is not used.
\<close>

theorem C10_hint_ignored:
  assumes "Invoked k \<in> set (events (retryWithBackoff fn arg))"
    and "fn k = Rejected e" and "message e = Some m" and "retryAfterMatch e = Some g"
    and "\<not> sublist ''429'' m" and "\<not> sublist ''quota'' m" and "\<not> sublist ''rate limit'' m"
    and "\<not> sublist ''500'' m" and "\<not> sublist ''503'' m"
  shows "completion (retryWithBackoff fn arg) = ThrewCaught e \<and>
         invocations (retryWithBackoff fn arg) = k + 1 \<and>
         last (events (retryWithBackoff fn arg)) = Invoked k \<and>
         length (waits (retryWithBackoff fn arg)) = k"
proof -
  let ?c = "resolve_options arg"
  have run: "retryWithBackoff fn arg = retry_loop fn ?c" by (simp add: retryWithBackoff_def)
  from assms(3,5-9) have n: "\<not> retryable e" by (simp add: retryable_iff)
  from run_invoked [of k fn ?c] assms(1)
  have pre: "\<forall>i<k. retrying (fn i)" and le: "int k \<le> max_retries ?c" by (simp_all add: run)
  from failures_retrying [OF pre] have len: "length (failures fn k) = k" by simp
  note r = run_caught [OF pre le assms(2) n]
  from r have ev: "events (retryWithBackoff fn arg) =
      trail ?c (initial_delay ?c) 0 (failures fn k) @ [Invoked k]" by (simp add: run)
  from r have "completion (retryWithBackoff fn arg) = ThrewCaught e" by (simp add: run)
  then show ?thesis using run_ends_with [OF ev len] by blast
qed

text \<open>
  C10 at an operation that is throttled once and then fails with
  \<^verbatim>\<open>invalid request, retry in 30 seconds\<close>: the only wait is the one of the first failure.
\<close>

theorem C10_witness:
  "Invoked 1 \<in> set (events (retryWithBackoff throttled_then_hinted None)) \<and>
   throttled_then_hinted 1 = Rejected (JsError (Some ''invalid request, retry in 30 seconds'')) \<and>
   retryAfterMatch (JsError (Some ''invalid request, retry in 30 seconds'')) = Some ''30'' \<and>
   \<not> sublist ''429'' ''invalid request, retry in 30 seconds'' \<and>
   \<not> sublist ''quota'' ''invalid request, retry in 30 seconds'' \<and>
   \<not> sublist ''rate limit'' ''invalid request, retry in 30 seconds'' \<and>
   \<not> sublist ''500'' ''invalid request, retry in 30 seconds'' \<and>
   \<not> sublist ''503'' ''invalid request, retry in 30 seconds'' \<and>
   completion (retryWithBackoff throttled_then_hinted None) =
     ThrewCaught (JsError (Some ''invalid request, retry in 30 seconds'')) \<and>
   invocations (retryWithBackoff throttled_then_hinted None) = 1 + 1 \<and>
   events (retryWithBackoff throttled_then_hinted None) = [Invoked 0, Waited 1000, Invoked 1]"
proof -
  have ev: "events (retryWithBackoff throttled_then_hinted None) =
              [Invoked 0, Waited 1000, Invoked 1]" by code_simp
  then have h1: "Invoked 1 \<in> set (events (retryWithBackoff throttled_then_hinted None))"
    by simp
  have h2: "throttled_then_hinted 1 =
              Rejected (JsError (Some ''invalid request, retry in 30 seconds''))"
    by (simp add: throttled_then_hinted_def)
  have h3: "message (JsError (Some ''invalid request, retry in 30 seconds'')) =
              Some ''invalid request, retry in 30 seconds''" by simp
  have h4: "retryAfterMatch (JsError (Some ''invalid request, retry in 30 seconds'')) = Some ''30''"
    by code_simp
  have n1: "\<not> sublist ''429'' ''invalid request, retry in 30 seconds''"
    and n2: "\<not> sublist ''quota'' ''invalid request, retry in 30 seconds''"
    and n3: "\<not> sublist ''rate limit'' ''invalid request, retry in 30 seconds''"
    and n4: "\<not> sublist ''500'' ''invalid request, retry in 30 seconds''"
    and n5: "\<not> sublist ''503'' ''invalid request, retry in 30 seconds''"
    by (simp_all add: sublist_code)
  from C10_hint_ignored [OF h1 h2 h3 h4 n1 n2 n3 n4 n5] ev h1 h2 h4 n1 n2 n3 n4 n5
  show ?thesis by simp
qed

subsection \<open>Runs that succeed at once\<close>

text \<open>
  C9: two consecutive runs with the same operation, which always succeeds with the
  value \<open>v\<close>, and the same configuration (\<^verbatim>\<open>maxRetries >= 0\<close>, as the data model has
  it). The second run meets the operation after the invocations of the first. Both runs
  are the same: they return \<open>v\<close> after exactly one invocation and no wait.
\<close>

theorem C9_two_runs:
  assumes "\<forall>i. fn i = Resolved v" and "0 \<le> max_retries (resolve_options arg)"
  shows "retryWithBackoff fn arg = \<lparr>completion = Returned v, events = [Invoked 0]\<rparr> \<and>
         retryWithBackoff (\<lambda>i. fn (invocations (retryWithBackoff fn arg) + i)) arg =
           retryWithBackoff fn arg \<and>
         invocations (retryWithBackoff fn arg) = 1 \<and> waits (retryWithBackoff fn arg) = [] \<and>
         invocations
           (retryWithBackoff (\<lambda>i. fn (invocations (retryWithBackoff fn arg) + i)) arg) = 1 \<and>
         waits (retryWithBackoff (\<lambda>i. fn (invocations (retryWithBackoff fn arg) + i)) arg) = []"
proof -
  let ?c = "resolve_options arg"
  from assms(2) have le: "int 0 \<le> max_retries ?c" by simp
  have one: "retryWithBackoff f arg = \<lparr>completion = Returned v, events = [Invoked 0]\<rparr>"
    if "f 0 = Resolved v" for f :: "nat \<Rightarrow> 'a settled"
    using run_returned [where fn = f and k = 0, OF _ le that]
    by (simp add: retryWithBackoff_def)
  from assms(1) have first: "fn 0 = Resolved v" by simp
  from assms(1) have second: "(\<lambda>i. fn (invocations (retryWithBackoff fn arg) + i)) 0 = Resolved v"
    by simp
  from one [of fn, OF first]
    one [of "\<lambda>i. fn (invocations (retryWithBackoff fn arg) + i)", OF second]
  show ?thesis
    by (simp add: invocations_def waits_def)
qed

text \<open>C9 at an operation that always returns 42, with the defaults.\<close>

theorem C9_witness:
  "always_ok 0 = Resolved 42 \<and> 0 \<le> max_retries (resolve_options None) \<and>
   retryWithBackoff always_ok None = \<lparr>completion = Returned 42, events = [Invoked 0]\<rparr> \<and>
   retryWithBackoff (\<lambda>i. always_ok (invocations (retryWithBackoff always_ok None) + i)) None =
     retryWithBackoff always_ok None"
proof -
  have h1: "\<forall>i. always_ok i = Resolved 42" by (simp add: always_ok_def)
  have h2: "0 \<le> max_retries (resolve_options None)" by (simp add: resolve_options_def)
  have h3: "always_ok 0 = Resolved 42" by (simp add: always_ok_def)
  from C9_two_runs [OF h1 h2] h2 h3 show ?thesis by blast
qed

subsection \<open>Defaults\<close>

text \<open>
  C8: a run without the configuration argument is the run with \<^verbatim>\<open>maxRetries = 5\<close>,
  \<^verbatim>\<open>initialDelay = 1000\<close>, \<^verbatim>\<open>maxDelay = 60000\<close> and \<^verbatim>\<open>backoffMultiplier = 2\<close>; a
  run with a configuration that lacks a field is the run with that field set to its
  default; and the default budget is 6 invocations: never more, and exactly 6 when the
  first six invocations fail with retryable errors.
\<close>

theorem C8_defaults:
  fixes opts :: RetryOptions
  shows
  "retryWithBackoff fn None =
     retryWithBackoff fn
       (Some \<lparr>maxRetries = Some 5, initialDelay = Some 1000, maxDelay = Some 60000,
              backoffMultiplier = Some 2\<rparr>) \<and>
   (maxRetries opts = None \<longrightarrow>
      retryWithBackoff fn (Some opts) = retryWithBackoff fn (Some (opts\<lparr>maxRetries := Some 5\<rparr>))) \<and>
   (initialDelay opts = None \<longrightarrow>
      retryWithBackoff fn (Some opts) =
        retryWithBackoff fn (Some (opts\<lparr>initialDelay := Some 1000\<rparr>))) \<and>
   (maxDelay opts = None \<longrightarrow>
      retryWithBackoff fn (Some opts) = retryWithBackoff fn (Some (opts\<lparr>maxDelay := Some 60000\<rparr>))) \<and>
   (backoffMultiplier opts = None \<longrightarrow>
      retryWithBackoff fn (Some opts) =
        retryWithBackoff fn (Some (opts\<lparr>backoffMultiplier := Some 2\<rparr>))) \<and>
   invocations (retryWithBackoff fn None) \<le> 6 \<and>
   ((\<forall>i\<le>5. retrying (fn i)) \<longrightarrow> invocations (retryWithBackoff fn None) = 6)"
proof -
  have d: "max_retries (resolve_options None) = 5" by (simp add: resolve_options_def)
  have "invocations (retryWithBackoff fn None) \<le> nat (max_retries (resolve_options None) + 1)"
    using loop_bound [of fn "resolve_options None" 0
        "\<lparr>lastError = None, delay = initial_delay (resolve_options None), history = []\<rparr>"]
    by (simp add: retryWithBackoff_def retry_loop_def invocations_def)
  then have bound: "invocations (retryWithBackoff fn None) \<le> 6" by (simp add: d)
  have all: "invocations (retryWithBackoff fn None) = 6" if "\<forall>i\<le>5. retrying (fn i)"
  proof -
    from that have pre: "\<forall>i<5. retrying (fn i)" and "retrying (fn 5)" by simp_all
    then obtain e where e: "fn 5 = Rejected e" "retryable e"
      by (auto simp: retrying_def split: settled.splits)
    have eq: "int 5 = max_retries (resolve_options None)" by (simp add: d)
    from failures_retrying [OF pre] have len: "length (failures fn 5) = 5" by simp
    from run_exhausted [OF pre eq e] have "events (retryWithBackoff fn None) =
        trail (resolve_options None) (initial_delay (resolve_options None)) 0 (failures fn 5) @
        [Invoked 5]" by (simp add: retryWithBackoff_def)
    from run_ends_with [OF this len] show ?thesis by simp
  qed
  have fields: "retryWithBackoff fn None =
     retryWithBackoff fn
       (Some \<lparr>maxRetries = Some 5, initialDelay = Some 1000, maxDelay = Some 60000,
              backoffMultiplier = Some 2\<rparr>)"
    "maxRetries opts = None \<longrightarrow>
      retryWithBackoff fn (Some opts) = retryWithBackoff fn (Some (opts\<lparr>maxRetries := Some 5\<rparr>))"
    "initialDelay opts = None \<longrightarrow>
      retryWithBackoff fn (Some opts) =
        retryWithBackoff fn (Some (opts\<lparr>initialDelay := Some 1000\<rparr>))"
    "maxDelay opts = None \<longrightarrow>
      retryWithBackoff fn (Some opts) = retryWithBackoff fn (Some (opts\<lparr>maxDelay := Some 60000\<rparr>))"
    "backoffMultiplier opts = None \<longrightarrow>
      retryWithBackoff fn (Some opts) =
        retryWithBackoff fn (Some (opts\<lparr>backoffMultiplier := Some 2\<rparr>))"
    by (simp_all add: retryWithBackoff_def resolve_options_def)
  with bound all show ?thesis by blast
qed

text \<open>C8 at the empty configuration and an operation that always fails with a 503.\<close>

theorem C8_witness:
  "maxRetries no_options = None \<and> initialDelay no_options = None \<and>
   maxDelay no_options = None \<and> backoffMultiplier no_options = None \<and>
   retryWithBackoff always_503 (Some no_options) =
     retryWithBackoff always_503 (Some (no_options\<lparr>maxRetries := Some 5\<rparr>)) \<and>
   retryWithBackoff always_503 (Some no_options) =
     retryWithBackoff always_503 (Some (no_options\<lparr>initialDelay := Some 1000\<rparr>)) \<and>
   retryWithBackoff always_503 (Some no_options) =
     retryWithBackoff always_503 (Some (no_options\<lparr>maxDelay := Some 60000\<rparr>)) \<and>
   retryWithBackoff always_503 (Some no_options) =
     retryWithBackoff always_503 (Some (no_options\<lparr>backoffMultiplier := Some 2\<rparr>)) \<and>
   retrying (always_503 0) \<and>
   invocations (retryWithBackoff always_503 None) = 6"
proof -
  have h0: "\<And>i. retrying (always_503 i)"
    by (simp add: always_503_def retrying_def retryable_iff sublist_code)
  then have h1: "\<forall>i\<le>5. retrying (always_503 i)" by simp
  have h2: "maxRetries no_options = None" "initialDelay no_options = None"
    "maxDelay no_options = None" "backoffMultiplier no_options = None"
    by (simp_all add: no_options_def)
  from C8_defaults [of always_503 no_options] h0 h1 h2 show ?thesis by blast
qed

subsection \<open>The waits\<close>






subsection \<open>The hint of a message\<close>

lemma not_digit_dot [simp]: "\<not> is_digit CHR ''.''"
  by (simp add: is_digit_def)



lemma starts_digit_fraction [simp]: "\<not> starts_digit (fraction_text fs @ s) \<longleftrightarrow> fs \<noteq> [] \<or> \<not> starts_digit s"
  by (simp add: fraction_text_def starts_digit_def)








lemma digits_value_Nil [simp]: "digits_value [] = 0"
  by (simp add: digits_value_def)






end
